theory Spec2Isabelle
  imports Complex_Main
begin

section \<open>Value model\<close>

text \<open>
  A decoded JSON document, as \<^verbatim>\<open>json.loads\<close> returns it: \<^verbatim>\<open>null\<close>, a number, a
  string, a list, a dictionary. The booleans are read as the numbers 1 and 0, which is
  what they are in Python's arithmetic and comparisons.
\<close>

datatype json =
    JNull
  | JNum real
  | JStr string
  | JArr "json list"
  | JObj "(string \<times> json) list"

text \<open>
  Attribute values of the workbench (\<^verbatim>\<open>sketch-gpt5-3.py\<close>, \<^verbatim>\<open>sketch-gpt5-0.py\<close>).
  Python's dynamically typed values are a datatype: an \<^verbatim>\<open>Unknown(hint)\<close> instance,
  \<^verbatim>\<open>None\<close>, a number (Python \<^verbatim>\<open>int\<close> and \<^verbatim>\<open>float\<close> are both read as a real number,
  rounding is not modelled), a string, an \<^verbatim>\<open>Interval(lo, hi)\<close> instance, and a list or
  dictionary that came in as JSON. Other Python objects are not modelled.
  The constructor \<open>Interval\<close> is the raw pair of fields; \<open>mk_Interval\<close> is the
  dataclass constructor with its \<^verbatim>\<open>__post_init__\<close> swap.
\<close>

datatype pyval =
    Unknown "string option"
  | PyNone
  | Num real
  | Str string
  | Interval real real
  | Container json

datatype py_error =
    KeyError string
  | ValueError string
  | TypeError string
  | ZeroDivisionError
  | NameError string
  | SyntaxError
  | JSONDecodeError
  | AttributeError string

definition mk_Interval :: "real \<Rightarrow> real \<Rightarrow> pyval" where
  "mk_Interval lo hi = (if lo > hi then Interval hi lo else Interval lo hi)"

fun is_Interval :: "pyval \<Rightarrow> bool" where
  "is_Interval (Interval lo hi) = True"
| "is_Interval v = False"

fun is_numberlike :: "pyval \<Rightarrow> bool" where
  "is_numberlike (Num x) = True"
| "is_numberlike v = False"

fun mid :: "pyval \<Rightarrow> real" where
  "mid (Interval lo hi) = 0.5 * (lo + hi)"
| "mid v = 0"

fun width :: "pyval \<Rightarrow> real" where
  "width (Interval lo hi) = hi - lo"
| "width v = 0"

text \<open>An interval as the constructor leaves it: \<open>lo \<le> hi\<close>; every other value is well formed.\<close>

fun wf_val :: "pyval \<Rightarrow> bool" where
  "wf_val (Interval lo hi) = (lo \<le> hi)"
| "wf_val v = True"

subsection \<open>The blend operator\<close>

text \<open>
  \<^verbatim>\<open>blend(old, target, strength)\<close>, \<^verbatim>\<open>sketch-gpt5-3.py\<close> lines 58-69 (the same
  function is in \<^verbatim>\<open>sketch-gpt5-0.py\<close> lines 63-78). The promotion
  \<^verbatim>\<open>Interval(old, old)\<close> of a non-interval operand succeeds for every value, the
  arithmetic on the endpoints afterwards raises \<^verbatim>\<open>TypeError\<close> unless they are numbers;
  \<open>endpoints\<close> gives the two fields after promotion.
\<close>

fun endpoints :: "pyval \<Rightarrow> py_error + (real \<times> real)" where
  "endpoints (Interval lo hi) = Inr (lo, hi)"
| "endpoints (Num x) = Inr (x, x)"
| "endpoints v = Inl (TypeError ''unsupported operand type(s)'')"

definition blend :: "pyval \<Rightarrow> pyval \<Rightarrow> real \<Rightarrow> py_error + pyval" where
  "blend old target strength =
    (case old of
       Unknown h \<Rightarrow> Inr target
     | PyNone \<Rightarrow> Inr target
     | _ \<Rightarrow>
       if is_Interval old \<or> is_Interval target then
         (case endpoints old of
            Inl e \<Rightarrow> Inl e
          | Inr (olo, ohi) \<Rightarrow>
            (case endpoints target of
               Inl e \<Rightarrow> Inl e
             | Inr (tlo, thi) \<Rightarrow>
               Inr (mk_Interval ((1 - strength) * olo + strength * tlo)
                                ((1 - strength) * ohi + strength * thi))))
       else
         (case (old, target) of
            (Num a, Num b) \<Rightarrow> Inr (Num ((1 - strength) * a + strength * b))
          | _ \<Rightarrow> Inl (TypeError ''unsupported operand type(s)'')))"

text \<open>The values the blend identities are about: scalars and (well-formed) intervals.\<close>

fun scalar_or_interval :: "pyval \<Rightarrow> bool" where
  "scalar_or_interval (Num x) = True"
| "scalar_or_interval (Interval lo hi) = (lo \<le> hi)"
| "scalar_or_interval v = False"

text \<open>The promotion of a scalar to a degenerate interval, as \<open>blend\<close> does it.\<close>

fun promote :: "pyval \<Rightarrow> pyval" where
  "promote (Num x) = Interval x x"
| "promote v = v"

section \<open>Dictionaries and paths\<close>

text \<open>
  A Python \<^verbatim>\<open>dict\<close> keeps insertion order, and the workbench iterates over its
  dictionaries, so a dictionary is an association list with distinct keys:
  \<open>map_of\<close> reads it, \<open>dict_set\<close> is \<^verbatim>\<open>d[k] = v\<close> (an existing key keeps its
  position, a new key goes to the end), \<open>dict_pop\<close> is \<^verbatim>\<open>d.pop(k, None)\<close>.
\<close>

fun dict_set :: "'k \<Rightarrow> 'v \<Rightarrow> ('k \<times> 'v) list \<Rightarrow> ('k \<times> 'v) list" where
  "dict_set k v [] = [(k, v)]"
| "dict_set k v ((k', v') # d) =
     (if k = k' then (k, v) # d else (k', v') # dict_set k v d)"

definition dict_pop :: "'k \<Rightarrow> ('k \<times> 'v) list \<Rightarrow> ('k \<times> 'v) list" where
  "dict_pop k d = filter (\<lambda>kv. fst kv \<noteq> k) d"

definition dict_has :: "'k \<Rightarrow> ('k \<times> 'v) list \<Rightarrow> bool" where
  "dict_has k d = (map_of d k \<noteq> None)"

text \<open>
  \<^verbatim>\<open>path.split(".", 1)\<close>: the text before the first separator and the text after
  it, \<open>None\<close> when the path has no separator (the split then has one element only).
\<close>

fun split_dot :: "string \<Rightarrow> (string \<times> string) option" where
  "split_dot [] = None"
| "split_dot (c # cs) =
     (if c = CHR ''.'' then Some ([], cs)
      else (case split_dot cs of
              None \<Rightarrow> None
            | Some (a, b) \<Rightarrow> Some (c # a, b)))"

section \<open>Branch and collapse extension (\<^verbatim>\<open>gpt5-synthesis-2.py\<close>)\<close>

text \<open>\<^verbatim>\<open>to_interval(v)\<close>, lines 37-40: the fields of the interval, or \<open>None\<close>.\<close>

fun to_interval :: "pyval \<Rightarrow> (real \<times> real) option" where
  "to_interval (Interval lo hi) = Some (lo, hi)"
| "to_interval (Num x) = Some (x, x)"
| "to_interval v = None"

text \<open>
  A branch entry is the dictionary that \<^verbatim>\<open>apply_metaphor_fork\<close> appends; the
  entry that \<^verbatim>\<open>collapse_branches\<close> builds for the weighted mean has the first four
  keys only, so the other two are optional. The time stamp \<^verbatim>\<open>when\<close> is left out.
\<close>

record branch =
  b_name :: string
  b_value :: pyval
  b_metaphor :: string
  b_confidence :: real
  b_from :: "pyval option"
  b_context :: "string list option"

text \<open>
  An attribute of a node is a value, or, under the key \<^verbatim>\<open>"branches"\<close>, the dictionary
  from attribute names to their lists of branch entries.
\<close>

datatype attrval = V pyval | Branches "(string \<times> branch list) list"

record hist =
  h_path :: string
  h_from :: attrval
  h_to :: pyval
  h_source :: string
  h_meaning :: "string option"

record hnode =
  hn_id :: string
  hn_type :: string
  hn_attrs :: "(string \<times> attrval) list"
  hn_semantics :: "string list"
  hn_history :: "hist list"

text \<open>
  The provenance entry of \<^verbatim>\<open>HybridWB\<close> has an operation name, its arguments and a
  time stamp; the arguments are kept as the path and the value written (the source
  stores \<^verbatim>\<open>str(value)\<close>), the time stamp is left out.
\<close>

record hprov =
  hp_op :: string
  hp_path :: string
  hp_value :: pyval
  hp_meaning :: "string option"

record hybridwb =
  hw_nodes :: "(string \<times> hnode) list"
  hw_provenance :: "hprov list"
  hw_version :: nat

definition hw_bump :: "hprov \<Rightarrow> hybridwb \<Rightarrow> hybridwb" where
  "hw_bump pe wb = wb\<lparr>hw_version := hw_version wb + 1,
                       hw_provenance := hw_provenance wb @ [pe]\<rparr>"

text \<open>\<^verbatim>\<open>if meaning:\<close> holds for a string that is not empty.\<close>

fun truthy_str :: "string option \<Rightarrow> bool" where
  "truthy_str None = False"
| "truthy_str (Some s) = (s \<noteq> [])"

text \<open>\<^verbatim>\<open>HybridWB.set_attr\<close>, lines 73-81.\<close>

definition hw_set_attr ::
  "hybridwb \<Rightarrow> string \<Rightarrow> pyval \<Rightarrow> string \<Rightarrow> string option \<Rightarrow> py_error + hybridwb" where
  "hw_set_attr wb path val source meaning =
    (case split_dot path of
       None \<Rightarrow> Inl (ValueError ''not enough values to unpack'')
     | Some (ent, key) \<Rightarrow>
       (case map_of (hw_nodes wb) ent of
          None \<Rightarrow> Inl (KeyError ent)
        | Some n \<Rightarrow>
          let old = (case map_of (hn_attrs n) key of None \<Rightarrow> V PyNone | Some a \<Rightarrow> a);
              n1 = n\<lparr>hn_attrs := dict_set key (V val) (hn_attrs n)\<rparr>;
              n2 = n1\<lparr>hn_history := hn_history n1 @
                     [\<lparr>h_path = path, h_from = old, h_to = val,
                       h_source = source, h_meaning = meaning\<rparr>]\<rparr>;
              n3 = (if truthy_str meaning
                    then n2\<lparr>hn_semantics := hn_semantics n2 @ [the meaning]\<rparr> else n2);
              wb1 = wb\<lparr>hw_nodes := dict_set ent n3 (hw_nodes wb)\<rparr>
          in Inr (hw_bump \<lparr>hp_op = ''set_attr'', hp_path = path, hp_value = val,
                           hp_meaning = meaning\<rparr> wb1)))"

text \<open>
  \<^verbatim>\<open>n.attrs.get("branches", {}).get(key, [])\<close>: a value stored under
  \<^verbatim>\<open>"branches"\<close> that is not a dictionary has no \<^verbatim>\<open>get\<close>.
\<close>

definition branches_of :: "hnode \<Rightarrow> string \<Rightarrow> py_error + branch list" where
  "branches_of n key =
    (case map_of (hn_attrs n) ''branches'' of
       None \<Rightarrow> Inr []
     | Some (Branches d) \<Rightarrow> Inr (case map_of d key of None \<Rightarrow> [] | Some bs \<Rightarrow> bs)
     | Some (V v) \<Rightarrow> Inl (AttributeError ''get''))"

text \<open>\<^verbatim>\<open>max(branches, key=lambda b: b["confidence"])\<close>: the first maximal entry.\<close>

fun max_conf :: "branch \<Rightarrow> branch list \<Rightarrow> branch" where
  "max_conf best [] = best"
| "max_conf best (b # bs) =
     (if b_confidence b > b_confidence best then max_conf b bs else max_conf best bs)"

text \<open>
  The loop of the \<^verbatim>\<open>weighted_mean\<close> branch, lines 162-167, with its three
  accumulators \<^verbatim>\<open>mids\<close>, \<^verbatim>\<open>widths\<close> and \<^verbatim>\<open>total_c\<close>.
\<close>

fun wm_loop :: "branch list \<Rightarrow> real list \<times> real list \<times> real \<Rightarrow> real list \<times> real list \<times> real" where
  "wm_loop [] acc = acc"
| "wm_loop (b # bs) (mids, widths, total_c) =
     (case to_interval (b_value b) of
        None \<Rightarrow> wm_loop bs (mids, widths, total_c)
      | Some (lo, hi) \<Rightarrow>
        let c = b_confidence b
        in wm_loop bs (mids @ [mid (Interval lo hi) * c],
                       widths @ [width (Interval lo hi) * c], total_c + c))"

text \<open>Lines 168-172: the entry chosen by the weighted mean (\<open>bs\<close> is not empty).\<close>

definition weighted_mean_chosen :: "branch list \<Rightarrow> branch" where
  "weighted_mean_chosen bs =
    (case wm_loop bs ([], [], 0) of
       (mids, widths, total_c) \<Rightarrow>
         if total_c = 0 then hd bs
         else
           let m = sum_list mids / total_c; w = sum_list widths / total_c;
               lo = m - w / 2; hi = m + w / 2
           in \<lparr>b_name = ''weighted'', b_value = mk_Interval lo hi,
               b_metaphor = ''Weighted collapse of branches'', b_confidence = 1,
               b_from = None, b_context = None\<rparr>)"

text \<open>\<^verbatim>\<open>collapse_branches(wb, target_path, method)\<close>, lines 152-177.\<close>

definition collapse_branches ::
  "hybridwb \<Rightarrow> string \<Rightarrow> string \<Rightarrow> py_error + (hybridwb \<times> branch option)" where
  "collapse_branches wb target_path method =
    (case split_dot target_path of
       None \<Rightarrow> Inl (ValueError ''not enough values to unpack'')
     | Some (ent, key) \<Rightarrow>
       (case map_of (hw_nodes wb) ent of
          None \<Rightarrow> Inl (KeyError ent)
        | Some n \<Rightarrow>
          (case branches_of n key of
             Inl e \<Rightarrow> Inl e
           | Inr branches \<Rightarrow>
             if branches = [] then Inr (wb, None)
             else
               let chosen =
                     (if method = ''max_conf'' then max_conf (hd branches) (tl branches)
                      else if method = ''weighted_mean'' then weighted_mean_chosen branches
                      else hd branches)
               in (case hw_set_attr wb target_path (b_value chosen)
                          (''collapse:'' @ method)
                          (Some (''Collapsed from branches via '' @ method)) of
                     Inl e \<Rightarrow> Inl e
                   | Inr wb' \<Rightarrow> Inr (wb', Some chosen)))))"

text \<open>The committed value of an attribute of a node, read from the store.\<close>

definition hw_attr :: "hybridwb \<Rightarrow> string \<Rightarrow> string \<Rightarrow> attrval option" where
  "hw_attr wb ent key =
    (case map_of (hw_nodes wb) ent of None \<Rightarrow> None | Some n \<Rightarrow> map_of (hn_attrs n) key)"

text \<open>
  The weighted mean as the specification words it: over the candidates whose values are
  intervals only. It is compared with \<open>weighted_mean_chosen\<close> below.
\<close>

definition spec_interval_only_mean :: "branch list \<Rightarrow> pyval" where
  "spec_interval_only_mean bs =
    (let cs = filter (\<lambda>b. is_Interval (b_value b)) bs;
         total = sum_list (map b_confidence cs);
         m = sum_list (map (\<lambda>b. mid (b_value b) * b_confidence b) cs) / total;
         w = sum_list (map (\<lambda>b. width (b_value b) * b_confidence b) cs) / total
     in mk_Interval (m - w / 2) (m + w / 2))"

text \<open>
  The candidates that take part in the weighted mean of the code: those whose value is
  an interval or a number, a number \<open>x\<close> as the interval from \<open>x\<close> to \<open>x\<close>.
\<close>

definition takes_part :: "branch \<Rightarrow> bool" where
  "takes_part b = (to_interval (b_value b) \<noteq> None)"

definition wm_total :: "branch list \<Rightarrow> real" where
  "wm_total bs = sum_list (map b_confidence (filter takes_part bs))"

definition wm_mid :: "branch list \<Rightarrow> real" where
  "wm_mid bs = sum_list (map (\<lambda>b. mid (promote (b_value b)) * b_confidence b)
                              (filter takes_part bs)) / wm_total bs"

definition wm_width :: "branch list \<Rightarrow> real" where
  "wm_width bs = sum_list (map (\<lambda>b. width (promote (b_value b)) * b_confidence b)
                                (filter takes_part bs)) / wm_total bs"

text \<open>
  A concrete store for the weighted mean: the node \<^verbatim>\<open>e\<close> with three candidates for
  \<^verbatim>\<open>trust\<close>, a number, an interval and a string.
\<close>

definition ex_branches :: "branch list" where
  "ex_branches =
     [\<lparr>b_name = ''a'', b_value = Num 1, b_metaphor = ''m'', b_confidence = 1,
       b_from = None, b_context = None\<rparr>,
      \<lparr>b_name = ''b'', b_value = Interval 0 2, b_metaphor = ''m'', b_confidence = 1,
       b_from = None, b_context = None\<rparr>,
      \<lparr>b_name = ''c'', b_value = Str ''x'', b_metaphor = ''m'', b_confidence = 5,
       b_from = None, b_context = None\<rparr>]"

definition ex_hnode :: hnode where
  "ex_hnode = \<lparr>hn_id = ''e'', hn_type = ''Phenomenon'',
               hn_attrs = [(''branches'', Branches [(''trust'', ex_branches)])],
               hn_semantics = [], hn_history = []\<rparr>"

definition ex_hwb :: hybridwb where
  "ex_hwb = \<lparr>hw_nodes = [(''e'', ex_hnode)], hw_provenance = [], hw_version = 0\<rparr>"

section \<open>The workbench (\<^verbatim>\<open>sketch-gpt5-0.py\<close>)\<close>

text \<open>
  The dictionaries that the operations record and return (arguments, results, command
  outputs) are trees of Python objects: a value, a string, a count, a dictionary, a list.
\<close>

datatype res =
    RNone
  | RV pyval
  | RS string
  | RN nat
  | RB bool
  | RD "(string \<times> res) list"
  | RL "res list"

record node =
  n_id :: string
  n_type :: string
  n_attrs :: "(string \<times> pyval) list"

record edge =
  e_id :: string
  e_type :: string
  e_from_id :: string
  e_to_id :: string
  e_attrs :: "(string \<times> pyval) list"

record constraint =
  c_id :: string
  c_target :: string
  c_expr :: string
  c_strength :: real
  c_note :: "string option"

text \<open>
  The dictionaries of a rule, by their keys: a node pattern has \<^verbatim>\<open>var\<close> and may have
  \<^verbatim>\<open>type\<close> and \<^verbatim>\<open>where\<close>; an edge pattern may have \<^verbatim>\<open>var\<close>, \<^verbatim>\<open>type\<close>,
  \<^verbatim>\<open>from\<close>, \<^verbatim>\<open>to\<close> and \<^verbatim>\<open>where\<close>; an action either has the key
  \<^verbatim>\<open>ensure_constraint\<close>, with \<^verbatim>\<open>target\<close>, \<^verbatim>\<open>expr\<close> and optionally a numeric
  \<^verbatim>\<open>strength\<close> and a \<^verbatim>\<open>note\<close>, or it has not.
\<close>

record node_pattern =
  np_var :: string
  np_type :: "string option"
  np_where :: "(string \<times> pyval) list"

record edge_pattern =
  ep_var :: "string option"
  ep_type :: "string option"
  ep_from :: "string option"
  ep_to :: "string option"
  ep_where :: "(string \<times> pyval) list"

record ensure_spec =
  a_target :: string
  a_expr :: string
  a_strength :: "real option"
  a_note :: "string option"

datatype action = EnsureConstraint ensure_spec | OtherAction

record rule =
  r_name :: string
  r_node_patterns :: "node_pattern list"
  r_edge_patterns :: "edge_pattern list"
  r_actions :: "action list"

text \<open>A provenance entry; its time stamp \<^verbatim>\<open>t\<close> is left out.\<close>

record prov =
  pe_op :: string
  pe_args :: res
  pe_version :: nat
  pe_result :: "res option"

record snap =
  s_nodes :: "(string \<times> node) list"
  s_edges :: "(string \<times> edge) list"
  s_constraints :: "(string \<times> constraint) list"

record workbench =
  nodes :: "(string \<times> node) list"
  edges :: "(string \<times> edge) list"
  constraints :: "(string \<times> constraint) list"
  rules :: "(string \<times> rule) list"
  version :: nat
  provenance :: "prov list"
  snapshots :: "(nat \<times> snap) list"

definition init_wb :: workbench where
  "init_wb = \<lparr>nodes = [], edges = [], constraints = [], rules = [], version = 0,
              provenance = [], snapshots = []\<rparr>"

text \<open>\<^verbatim>\<open>Workbench._bump\<close>, lines 132-136.\<close>

definition bump :: "string \<Rightarrow> res \<Rightarrow> res option \<Rightarrow> workbench \<Rightarrow> workbench" where
  "bump op args result wb =
     wb\<lparr>version := version wb + 1,
        provenance := provenance wb @
          [\<lparr>pe_op = op, pe_args = args, pe_version = version wb + 1, pe_result = result\<rparr>]\<rparr>"

text \<open>
  \<^verbatim>\<open>Workbench._resolve_container\<close>, lines 138-146. The source returns the attribute
  dictionary itself, which the caller then reads or writes; the model returns which
  store holds the entity, its id and the key.
\<close>

datatype container = InNode | InEdge

definition resolve_container ::
  "workbench \<Rightarrow> string \<Rightarrow> py_error + (container \<times> string \<times> string)" where
  "resolve_container wb path =
    (case split_dot path of
       None \<Rightarrow> Inl (KeyError (''Invalid target path (missing '' @ [CHR 0x27, CHR ''.'', CHR 0x27] @ ''): '' @ path))
     | Some (ent_id, key) \<Rightarrow>
       if dict_has ent_id (nodes wb) then Inr (InNode, ent_id, key)
       else if dict_has ent_id (edges wb) then Inr (InEdge, ent_id, key)
       else Inl (KeyError (''Entity not found for path: '' @ path)))"

text \<open>The attribute dictionary of a resolved entity, and the write of one key into it.\<close>

definition attrs_of :: "workbench \<Rightarrow> container \<Rightarrow> string \<Rightarrow> (string \<times> pyval) list" where
  "attrs_of wb k ent_id =
    (case k of
       InNode \<Rightarrow> (case map_of (nodes wb) ent_id of None \<Rightarrow> [] | Some n \<Rightarrow> n_attrs n)
     | InEdge \<Rightarrow> (case map_of (edges wb) ent_id of None \<Rightarrow> [] | Some e \<Rightarrow> e_attrs e))"

definition write_attr ::
  "container \<Rightarrow> string \<Rightarrow> string \<Rightarrow> pyval \<Rightarrow> workbench \<Rightarrow> workbench" where
  "write_attr k ent_id key v wb =
    (case k of
       InNode \<Rightarrow>
         (case map_of (nodes wb) ent_id of
            None \<Rightarrow> wb
          | Some n \<Rightarrow> wb\<lparr>nodes := dict_set ent_id (n\<lparr>n_attrs := dict_set key v (n_attrs n)\<rparr>) (nodes wb)\<rparr>)
     | InEdge \<Rightarrow>
         (case map_of (edges wb) ent_id of
            None \<Rightarrow> wb
          | Some e \<Rightarrow> wb\<lparr>edges := dict_set ent_id (e\<lparr>e_attrs := dict_set key v (e_attrs e)\<rparr>) (edges wb)\<rparr>))"

text \<open>\<^verbatim>\<open>attrs.get(key, Unknown())\<close>.\<close>

definition attr_get :: "(string \<times> pyval) list \<Rightarrow> string \<Rightarrow> pyval" where
  "attr_get attrs key = (case map_of attrs key of None \<Rightarrow> Unknown None | Some v \<Rightarrow> v)"

fun is_Unknown :: "pyval \<Rightarrow> bool" where
  "is_Unknown (Unknown h) = True"
| "is_Unknown v = False"

text \<open>\<^verbatim>\<open>Workbench.val\<close>, lines 148-156: the \<^verbatim>\<open>KeyError\<close> is caught.\<close>

definition val :: "workbench \<Rightarrow> string \<Rightarrow> pyval" where
  "val wb path =
    (case resolve_container wb path of
       Inl e \<Rightarrow> PyNone
     | Inr (k, ent_id, key) \<Rightarrow>
       let v = attr_get (attrs_of wb k ent_id) key
       in if is_Unknown v then PyNone else v)"


text \<open>
  Python's \<^verbatim>\<open>==\<close> on attribute values. \<^verbatim>\<open>Unknown\<close> defines no \<^verbatim>\<open>__eq__\<close>, so an
  \<^verbatim>\<open>Unknown\<close> instance equals only itself, and none of the comparisons below has the
  same instance on both sides; the \<^verbatim>\<open>Interval\<close> dataclass compares its fields.
\<close>

fun py_eq :: "pyval \<Rightarrow> pyval \<Rightarrow> bool" where
  "py_eq PyNone PyNone = True"
| "py_eq (Num a) (Num b) = (a = b)"
| "py_eq (Str a) (Str b) = (a = b)"
| "py_eq (Interval a b) (Interval c d) = (a = c \<and> b = d)"
| "py_eq (Container a) (Container b) = (a = b)"
| "py_eq v w = False"



definition opt_str :: "string option \<Rightarrow> res" where
  "opt_str s = (case s of None \<Rightarrow> RNone | Some x \<Rightarrow> RS x)"

text \<open>The decimal digits of a number, for \<^verbatim>\<open>f"{base}#{i}"\<close>.\<close>

fun show_nat :: "nat \<Rightarrow> string" where
  "show_nat n =
     (if n < 10 then [char_of (48 + n)]
      else show_nat (n div 10) @ [char_of (48 + n mod 10)])"













subsection \<open>Propagation\<close>

text \<open>
  Python's built-in \<^verbatim>\<open>eval\<close> is the language's, not the repository's: it is a
  parameter of the model. An evaluator takes the lookup \<^verbatim>\<open>val\<close> that the environment
  of \<^verbatim>\<open>_safe_eval\<close> exposes and the expression string, and returns the value of the
  expression or the exception it raises (a subclass of \<^verbatim>\<open>Exception\<close>).
\<close>

type_synonym evaluator = "(string \<Rightarrow> pyval) \<Rightarrow> string \<Rightarrow> py_error + pyval"

text \<open>\<^verbatim>\<open>Workbench._safe_eval\<close>, lines 373-387: \<^verbatim>\<open>except Exception: return None\<close>.\<close>

definition safe_eval :: "evaluator \<Rightarrow> workbench \<Rightarrow> string \<Rightarrow> pyval" where
  "safe_eval ev wb expr = (case ev (val wb) expr of Inl e \<Rightarrow> PyNone | Inr v \<Rightarrow> v)"

text \<open>The convergence measure of one update, lines 406-411.\<close>

definition delta_of :: "pyval \<Rightarrow> pyval \<Rightarrow> real" where
  "delta_of current new_val =
    (if is_Interval current \<and> is_Interval new_val
     then \<bar>mid new_val - mid current\<bar> + \<bar>width new_val - width current\<bar>
     else if is_numberlike current \<and> is_numberlike new_val
     then (case (new_val, current) of (Num a, Num b) \<Rightarrow> \<bar>a - b\<bar> | _ \<Rightarrow> 0)
     else 1)"

text \<open>
  The loop of \<^verbatim>\<open>Workbench.propagate_once\<close>, lines 392-411, over the items of the
  constraint dictionary. Its state is the workbench, the list \<^verbatim>\<open>updates\<close> and
  \<^verbatim>\<open>delta_total\<close>. The call of \<open>blend\<close> is outside every \<^verbatim>\<open>try\<close>: when it
  raises, the loop stops with the state it has reached and the exception.
\<close>

fun prop_loop ::
  "evaluator \<Rightarrow> (string \<times> constraint) list \<Rightarrow> workbench \<times> res list \<times> real
    \<Rightarrow> (workbench \<times> res list \<times> real) \<times> py_error option" where
  "prop_loop ev [] st = (st, None)"
| "prop_loop ev ((cid, c) # cs) (wb, updates, delta_total) =
    (let target_value = safe_eval ev wb (c_expr c) in
     if target_value = PyNone then prop_loop ev cs (wb, updates, delta_total)
     else
       (case resolve_container wb (c_target c) of
          Inl e \<Rightarrow> prop_loop ev cs (wb, updates, delta_total)
        | Inr (k, ent_id, key) \<Rightarrow>
          let current = attr_get (attrs_of wb k ent_id) key in
          (case blend current target_value (c_strength c) of
             Inl e \<Rightarrow> ((wb, updates, delta_total), Some e)
           | Inr new_val \<Rightarrow>
             if \<not> py_eq current new_val
             then prop_loop ev cs
                    (write_attr k ent_id key new_val wb,
                     updates @ [RD [(''constraint'', RS cid), (''target'', RS (c_target c)),
                                    (''value'', RV new_val)]],
                     delta_total + delta_of current new_val)
             else prop_loop ev cs (wb, updates, delta_total))))"

text \<open>The dictionary that a tick returns.\<close>

record tick =
  t_updates :: "res list"
  t_count :: nat
  t_delta :: real

definition tick_res :: "tick \<Rightarrow> res" where
  "tick_res r = RD [(''updates'', RL (t_updates r)), (''count'', RN (t_count r)),
                    (''delta'', RV (Num (t_delta r)))]"

text \<open>
  \<^verbatim>\<open>Workbench.propagate_once\<close>, lines 389-414. A call returns the workbench as the
  call leaves it, and the result or the exception that ends the call.
\<close>

definition propagate_once :: "evaluator \<Rightarrow> workbench \<Rightarrow> workbench \<times> (py_error + tick)" where
  "propagate_once ev wb =
    (case prop_loop ev (constraints wb) (wb, [], 0) of
       ((wb1, updates, delta_total), Some e) \<Rightarrow> (wb1, Inl e)
     | ((wb1, updates, delta_total), None) \<Rightarrow>
       let changed = \<lparr>t_updates = updates, t_count = length updates, t_delta = delta_total\<rparr>
       in (bump ''propagate_once'' (RD []) (Some (tick_res changed)) wb1, Inr changed))"

text \<open>
  \<^verbatim>\<open>Workbench.simulate\<close> of \<^verbatim>\<open>sketch-gpt5-0.py\<close>, lines 416-434. The loop state is
  \<^verbatim>\<open>ticks\<close>, \<^verbatim>\<open>steps\<close>, \<^verbatim>\<open>total_updates\<close>, \<^verbatim>\<open>last_delta\<close> and the workbench.
  \<open>truthy_int\<close> is \<^verbatim>\<open>max_steps and ...\<close>: neither \<^verbatim>\<open>None\<close> nor 0.
\<close>

fun truthy_int :: "int option \<Rightarrow> bool" where
  "truthy_int None = False"
| "truthy_int (Some n) = (n \<noteq> 0)"

record sim_state =
  ss_ticks :: int
  ss_steps :: int
  ss_total :: nat
  ss_last_delta :: "real option"

definition sim_continue :: "int option \<Rightarrow> sim_state \<Rightarrow> bool" where
  "sim_continue max_steps s =
     (ss_ticks s > 0 \<or> (truthy_int max_steps \<and> ss_steps s < the max_steps))"

text \<open>The three \<^verbatim>\<open>break\<close> tests after a tick, lines 425-430, on the updated counters.\<close>

definition sim_break :: "real \<Rightarrow> int option \<Rightarrow> sim_state \<Rightarrow> tick \<Rightarrow> bool" where
  "sim_break until_delta max_steps s r =
     ((until_delta \<noteq> 0 \<and> t_delta r \<le> until_delta)
      \<or> (truthy_int max_steps \<and> ss_steps s \<ge> the max_steps)
      \<or> (t_count r = 0 \<and> (ss_last_delta s = Some 0 \<or> ss_last_delta s = None)))"

definition sim_advance :: "sim_state \<Rightarrow> tick \<Rightarrow> sim_state" where
  "sim_advance s r = s\<lparr>ss_steps := ss_steps s + 1, ss_total := ss_total s + t_count r,
                        ss_ticks := ss_ticks s - 1\<rparr>"

function sim_loop ::
  "evaluator \<Rightarrow> real \<Rightarrow> int option \<Rightarrow> sim_state \<Rightarrow> workbench
    \<Rightarrow> workbench \<times> (py_error + sim_state)" where
  "sim_loop ev until_delta max_steps s wb =
    (if sim_continue max_steps s then
       (case propagate_once ev wb of
          (wb1, Inl e) \<Rightarrow> (wb1, Inl e)
        | (wb1, Inr r) \<Rightarrow>
          let s1 = sim_advance s r in
          if sim_break until_delta max_steps s1 r then (wb1, Inr s1)
          else sim_loop ev until_delta max_steps (s1\<lparr>ss_last_delta := Some (t_delta r)\<rparr>) wb1)
     else (wb, Inr s))"
  by pat_completeness auto
termination
  by (relation "measure (\<lambda>(ev, until_delta, max_steps, s, wb).
        nat (ss_ticks s) + (if truthy_int max_steps then nat (the max_steps - ss_steps s) else 0))")
     (auto simp: sim_continue_def sim_break_def sim_advance_def)

declare sim_loop.simps [simp del]

definition opt_int :: "int option \<Rightarrow> res" where
  "opt_int n = (case n of None \<Rightarrow> RNone | Some i \<Rightarrow> RV (Num (of_int i)))"

definition simulate ::
  "evaluator \<Rightarrow> workbench \<Rightarrow> int \<Rightarrow> real \<Rightarrow> real \<Rightarrow> int option
    \<Rightarrow> workbench \<times> (py_error + res)" where
  "simulate ev wb ticks dt until_delta max_steps =
    (case sim_loop ev until_delta max_steps
            \<lparr>ss_ticks = ticks, ss_steps = 0, ss_total = 0, ss_last_delta = None\<rparr> wb of
       (wb1, Inl e) \<Rightarrow> (wb1, Inl e)
     | (wb1, Inr s) \<Rightarrow>
       let summary = RD [(''steps'', RV (Num (of_int (ss_steps s)))),
                         (''total_updates'', RN (ss_total s))]
       in (bump ''simulate''
             (RD [(''ticks'', RV (Num (of_int (ss_ticks s)))), (''dt'', RV (Num dt)),
                  (''until_delta'', RV (Num until_delta)), (''max_steps'', opt_int max_steps)])
             (Some summary) wb1,
           Inr summary))"

subsection \<open>Queries\<close>

text \<open>\<^verbatim>\<open>Workbench.query_attr\<close>, lines 437-441.\<close>

definition query_attr :: "workbench \<Rightarrow> string \<Rightarrow> workbench \<times> res" where
  "query_attr wb path =
    (let v = val wb path;
         r = RD [(''path'', RS path), (''value'', RV v), (''version'', RN (version wb))]
     in (bump ''query_attr'' (RD [(''path'', RS path)]) (Some r) wb, r))"

text \<open>\<^verbatim>\<open>Workbench.explain\<close>, lines 459-469.\<close>

definition explain :: "evaluator \<Rightarrow> workbench \<Rightarrow> string \<Rightarrow> workbench \<times> res" where
  "explain ev wb path =
    (let explains =
           map (\<lambda>c. RD [(''id'', RS (c_id c)), (''expr'', RS (c_expr c)),
                         (''strength'', RV (Num (c_strength c))), (''note'', opt_str (c_note c)),
                         (''current'', RV (val wb path)),
                         (''expr_value'', RV (safe_eval ev wb (c_expr c)))])
               (filter (\<lambda>c. c_target c = path) (map snd (constraints wb)));
         r = RD [(''path'', RS path), (''contributors'', RL explains)]
     in (bump ''explain'' (RD [(''path'', RS path)])
           (Some (RD [(''count'', RN (length explains))])) wb, r))"

text \<open>
  \<^verbatim>\<open>Workbench.diff\<close>, lines 471-483. \<open>diff_entries\<close> is the list that the loop
  builds, one dictionary for each entry of the log whose version is greater than
  \<^verbatim>\<open>since_version\<close>.
\<close>

definition entry_res :: "prov \<Rightarrow> res" where
  "entry_res pe = RD [(''op'', RS (pe_op pe)), (''args'', pe_args pe),
                      (''version'', RN (pe_version pe)),
                      (''result'', (case pe_result pe of None \<Rightarrow> RNone | Some r \<Rightarrow> r))]"

definition diff_entries :: "workbench \<Rightarrow> int \<Rightarrow> prov list" where
  "diff_entries wb since_version =
     filter (\<lambda>pe. int (pe_version pe) > since_version) (provenance wb)"

definition diff :: "workbench \<Rightarrow> int \<Rightarrow> workbench \<times> res list" where
  "diff wb since_version =
    (let diffs = map entry_res (diff_entries wb since_version)
     in (bump ''diff'' (RD [(''since_version'', RV (Num (of_int since_version)))])
           (Some (RD [(''count'', RN (length diffs))])) wb, diffs))"

subsection \<open>Rules\<close>

text \<open>
  \<^verbatim>\<open>n.attrs.get(k) != v\<close> for every item of \<^verbatim>\<open>where\<close>: a missing key reads as
  \<^verbatim>\<open>None\<close>.
\<close>

definition where_ok :: "(string \<times> pyval) list \<Rightarrow> (string \<times> pyval) list \<Rightarrow> bool" where
  "where_ok attrs wh =
     list_all (\<lambda>(k, v). py_eq (case map_of attrs k of None \<Rightarrow> PyNone | Some x \<Rightarrow> x) v) wh"

text \<open>\<^verbatim>\<open>Workbench._node_candidates\<close>, lines 236-250.\<close>

definition node_candidates :: "workbench \<Rightarrow> node_pattern \<Rightarrow> string list" where
  "node_candidates wb pat =
     map n_id
       (filter (\<lambda>n. \<not> (truthy_str (np_type pat) \<and> n_type n \<noteq> the (np_type pat))
                     \<and> where_ok (n_attrs n) (np_where pat))
               (map snd (nodes wb)))"

text \<open>
  \<^verbatim>\<open>env.get(from_var)\<close> is true when the variable is bound to a string that is not
  empty.
\<close>

definition bound_truthy :: "(string \<times> string) list \<Rightarrow> string \<Rightarrow> bool" where
  "bound_truthy env x = truthy_str (map_of env x)"

text \<open>
  \<^verbatim>\<open>Workbench._edge_candidates\<close>, lines 252-272. The source returns the ids and the
  matcher looks each edge up again by its id; an edge is stored under its own id, so the
  model returns the edges.
\<close>

definition edge_candidates :: "workbench \<Rightarrow> edge_pattern \<Rightarrow> (string \<times> string) list \<Rightarrow> edge list" where
  "edge_candidates wb pat env =
     filter (\<lambda>e. \<not> (truthy_str (ep_type pat) \<and> e_type e \<noteq> the (ep_type pat))
                 \<and> \<not> (truthy_str (ep_from pat) \<and> bound_truthy env (the (ep_from pat))
                        \<and> Some (e_from_id e) \<noteq> map_of env (the (ep_from pat)))
                 \<and> \<not> (truthy_str (ep_to pat) \<and> bound_truthy env (the (ep_to pat))
                        \<and> Some (e_to_id e) \<noteq> map_of env (the (ep_to pat)))
                 \<and> where_ok (e_attrs e) (ep_where pat))
            (map snd (edges wb))"

text \<open>
  \<^verbatim>\<open>Workbench._match_rule\<close>, lines 274-321. The two nested generators work on one
  environment dictionary each, which they change and restore while they run; a generator
  is modelled by the list of the environments it yields, each as it is at the moment of
  the yield, together with the dictionary as the generator leaves it. \<open>k\<close> is the
  generator for the patterns that remain.
\<close>

definition bind_if_absent :: "string option \<Rightarrow> string \<Rightarrow> (string \<times> string) list \<Rightarrow> (string \<times> string) list" where
  "bind_if_absent x v env =
     (if truthy_str x \<and> \<not> dict_has (the x) env then dict_set (the x) v env else env)"

primrec edge_loop ::
  "edge_pattern \<Rightarrow> string \<Rightarrow> ((string \<times> string) list \<Rightarrow> (string \<times> string) list list \<times> (string \<times> string) list)
    \<Rightarrow> edge list \<Rightarrow> (string \<times> string) list
    \<Rightarrow> (string \<times> string) list list \<times> (string \<times> string) list" where
  "edge_loop pat var k [] env = ([], env)"
| "edge_loop pat var k (e # es) env =
    (if e_id e \<in> set (map snd env) then edge_loop pat var k es env
     else
       let env1 = bind_if_absent (ep_from pat) (e_from_id e) env;
           env2 = bind_if_absent (ep_to pat) (e_to_id e) env1;
           env3 = dict_set var (e_id e) env2;
           (ys, env4) = k env3;
           env5 = dict_pop var env4;
           (ys', env6) = edge_loop pat var k es env5
       in (ys @ ys', env6))"

primrec backtrack_edges ::
  "workbench \<Rightarrow> edge_pattern list \<Rightarrow> nat \<Rightarrow> (string \<times> string) list
    \<Rightarrow> (string \<times> string) list list \<times> (string \<times> string) list" where
  "backtrack_edges wb [] j = (\<lambda>env. ([env], env))"
| "backtrack_edges wb (pat # pats) j =
    (\<lambda>env. edge_loop pat (case ep_var pat of None \<Rightarrow> ''e'' @ show_nat j | Some v \<Rightarrow> v)
              (backtrack_edges wb pats (Suc j)) (edge_candidates wb pat env) env)"

primrec node_loop ::
  "string \<Rightarrow> ((string \<times> string) list \<Rightarrow> (string \<times> string) list list \<times> (string \<times> string) list)
    \<Rightarrow> string list \<Rightarrow> (string \<times> string) list
    \<Rightarrow> (string \<times> string) list list \<times> (string \<times> string) list" where
  "node_loop var k [] env = ([], env)"
| "node_loop var k (nid # nids) env =
    (if nid \<in> set (map snd env) then node_loop var k nids env
     else
       let (ys, env1) = k (dict_set var nid env);
           env2 = dict_pop var env1;
           (ys', env3) = node_loop var k nids env2
       in (ys @ ys', env3))"

primrec backtrack_nodes ::
  "workbench \<Rightarrow> edge_pattern list \<Rightarrow> node_pattern list \<Rightarrow> (string \<times> string) list
    \<Rightarrow> (string \<times> string) list list \<times> (string \<times> string) list" where
  "backtrack_nodes wb eps [] = (\<lambda>env. (fst (backtrack_edges wb eps 0 env), env))"
| "backtrack_nodes wb eps (pat # pats) =
    (\<lambda>env. node_loop (np_var pat) (backtrack_nodes wb eps pats) (node_candidates wb pat) env)"

definition match_rule :: "workbench \<Rightarrow> rule \<Rightarrow> (string \<times> string) list list" where
  "match_rule wb rule =
     fst (backtrack_nodes wb (r_edge_patterns rule) (r_node_patterns rule) [])"

text \<open>
  \<^verbatim>\<open>str.replace(old, new)\<close> for a pattern that is not empty: the occurrences are
  replaced from left to right, without overlap.
\<close>

function replace_str :: "string \<Rightarrow> string \<Rightarrow> string \<Rightarrow> string" where
  "replace_str old new [] = []"
| "replace_str old new (c # cs) =
    (if old \<noteq> [] \<and> take (length old) (c # cs) = old
     then new @ replace_str old new (drop (length old) (c # cs))
     else c # replace_str old new cs)"
  by pat_completeness auto
termination
  by (relation "measure (\<lambda>(old, new, s). length s)") auto

text \<open>\<^verbatim>\<open>Workbench._format\<close>, lines 323-328.\<close>

definition format_template :: "string \<Rightarrow> (string \<times> string) list \<Rightarrow> string" where
  "format_template template env =
     foldl (\<lambda>out (k, v). replace_str (''{'' @ k @ ''}'') v out) template env"

text \<open>
  \<^verbatim>\<open>Workbench.run_rules\<close>, lines 330-349. The loop state is the workbench,
  \<^verbatim>\<open>applied\<close> and \<^verbatim>\<open>details\<close>. The matcher reads nodes and edges only and the
  loop body writes constraints only, so the environments of a rule are taken before
  its loop starts.
\<close>

definition constraint_id :: "string \<Rightarrow> string \<Rightarrow> string" where
  "constraint_id rule_name target = ''r:'' @ rule_name @ '':'' @ target"





subsection \<open>Calls of the public operations\<close>






text \<open>
  The log of a workbench that started empty: its entries carry the versions
  \<open>1, 2, ..., version\<close> in this order.
\<close>

definition log_ok :: "workbench \<Rightarrow> bool" where
  "log_ok wb = (map pe_version (provenance wb) = [1 ..< Suc (version wb)])"




text \<open>One more entry in the log, carrying the next version.\<close>

definition logged_once :: "workbench \<Rightarrow> workbench \<Rightarrow> bool" where
  "logged_once wb wb' =
     (version wb' = version wb + 1 \<and>
      (\<exists>pe. provenance wb' = provenance wb @ [pe] \<and> pe_version pe = version wb + 1))"




text \<open>
  A concrete evaluator for the instances below. It agrees with Python's \<^verbatim>\<open>eval\<close> on
  the three expressions that the instances use: the literal \<^verbatim>\<open>0.5\<close>, the division
  \<^verbatim>\<open>1/0\<close> and the unbound name \<^verbatim>\<open>nope\<close>. A workbench with one node and two
  constraints on its attribute, the first of which cannot be evaluated.
\<close>

definition lit_eval :: evaluator where
  "lit_eval lookup expr =
     (if expr = ''0.5'' then Inr (Num (1/2))
      else if expr = ''1/0'' then Inl ZeroDivisionError
      else if expr = ''nope'' then Inl (NameError ''nope'')
      else Inl SyntaxError)"

definition mk_constraint :: "string \<Rightarrow> string \<Rightarrow> string \<Rightarrow> constraint" where
  "mk_constraint cid target expr =
     \<lparr>c_id = cid, c_target = target, c_expr = expr, c_strength = 1, c_note = None\<rparr>"

definition ex_wb_c :: workbench where
  "ex_wb_c = init_wb\<lparr>
     nodes := [(''a'', \<lparr>n_id = ''a'', n_type = ''Factor'', n_attrs = [(''x'', Num 1)]\<rparr>)],
     constraints := [(''c1'', mk_constraint ''c1'' ''a.x'' ''1/0''),
                     (''c2'', mk_constraint ''c2'' ''a.x'' ''0.5'')]\<rparr>"

subsection \<open>The simulation loop of \<^verbatim>\<open>sketch-gpt5-3.py\<close> and its trace\<close>







subsection \<open>The upserts of a run of the rules\<close>

text \<open>
  What \<open>upsert_constraint\<close> does to the constraint dictionary, and the upserts that a
  run of \<open>run_rules\<close> performs, in order: the same three loops, collecting the arguments
  of each call of \<open>upsert_constraint\<close> (id, target, expression, strength, note) instead
  of performing it. \<open>applied\<close> is passed along because the limit test reads it.
\<close>

type_synonym upsert = "string \<times> string \<times> string \<times> real \<times> string option"

fun set_fields :: "string \<times> string \<times> real \<times> string option \<Rightarrow> constraint \<Rightarrow> constraint" where
  "set_fields (target, expr, strength, note) c =
     c\<lparr>c_target := target, c_expr := expr, c_strength := strength, c_note := note\<rparr>"

fun upsert_entry :: "upsert \<Rightarrow> (string \<times> constraint) list \<Rightarrow> (string \<times> constraint) list" where
  "upsert_entry (cid, f) cs =
     dict_set cid
       (case map_of cs cid of
          Some c0 \<Rightarrow> set_fields f c0
        | None \<Rightarrow> set_fields f \<lparr>c_id = cid, c_target = [], c_expr = [], c_strength = 0,
                               c_note = None\<rparr>) cs"

fun action_upserts :: "rule \<Rightarrow> (string \<times> string) list \<Rightarrow> action list \<Rightarrow> upsert list" where
  "action_upserts rule env [] = []"
| "action_upserts rule env (OtherAction # acts) = action_upserts rule env acts"
| "action_upserts rule env (EnsureConstraint spec # acts) =
    (constraint_id (r_name rule) (format_template (a_target spec) env),
     format_template (a_target spec) env,
     format_template (a_expr spec) env,
     (case a_strength spec of None \<Rightarrow> 1 | Some s \<Rightarrow> s),
     Some (case a_note spec of None \<Rightarrow> r_name rule | Some n \<Rightarrow> n))
    # action_upserts rule env acts"

fun env_upserts :: "int option \<Rightarrow> rule \<Rightarrow> (string \<times> string) list list \<Rightarrow> nat \<Rightarrow> upsert list" where
  "env_upserts limit rule [] applied = []"
| "env_upserts limit rule (env # envs) applied =
    (if limit \<noteq> None \<and> int applied \<ge> the limit then []
     else action_upserts rule env (r_actions rule) @
          env_upserts limit rule envs
            (applied + length (action_upserts rule env (r_actions rule))))"

fun rule_upserts :: "int option \<Rightarrow> workbench \<Rightarrow> rule list \<Rightarrow> nat \<Rightarrow> upsert list" where
  "rule_upserts limit wb [] applied = []"
| "rule_upserts limit wb (rule # rs) applied =
    env_upserts limit rule (match_rule wb rule) applied @
    rule_upserts limit wb rs
      (applied + length (env_upserts limit rule (match_rule wb rule) applied))"

definition apply_upserts :: "upsert list \<Rightarrow> (string \<times> constraint) list \<Rightarrow> (string \<times> constraint) list" where
  "apply_upserts us cs = foldl (\<lambda>cs u. upsert_entry u cs) cs us"

text \<open>The fields that the last upsert of an id in a list of upserts sets.\<close>

definition last_fields ::
  "upsert list \<Rightarrow> string \<Rightarrow> (string \<times> string \<times> real \<times> string option) option" where
  "last_fields us = map_of (rev us)"

section \<open>Blend identities\<close>

lemma blend_Unknown: "blend (Unknown h) target s = Inr target"
  by (simp add: blend_def)

text \<open>
  C2, as stated, fails: with a scalar \<open>old\<close> and an interval \<open>target\<close>, strength 0
  returns the degenerate interval of \<open>old\<close>, which is not the scalar \<open>old\<close>.
\<close>

theorem blend_strength0_counterexample:
  "scalar_or_interval (Num 1) \<and> scalar_or_interval (Interval 2 3) \<and>
   blend (Num 1) (Interval 2 3) 0 = Inr (Interval 1 1) \<and>
   blend (Num 1) (Interval 2 3) 0 \<noteq> Inr (Num 1)"
  by (simp add: blend_def mk_Interval_def)

text \<open>
  C2 (amended): \<open>blend (Unknown h) target s = target\<close> for every target and strength;
  for scalars and well-formed intervals \<open>old\<close> and \<open>target\<close>, strength 0 returns \<open>old\<close>
  and strength 1 returns \<open>target\<close> when both are of the same kind, and when exactly one
  of them is an interval the result is the same with the scalar operand promoted to
  its degenerate interval.
\<close>

theorem blend_boundary_identities:
  assumes "scalar_or_interval old" and "scalar_or_interval target"
  shows "blend (Unknown h) t s = Inr t \<and>
         blend old target 0 = Inr (if is_Interval target then promote old else old) \<and>
         blend old target 1 = Inr (if is_Interval old then promote target else target)"
  using assms by (cases old; cases target; simp add: blend_def mk_Interval_def)

theorem blend_boundary_identities_witness:
  "scalar_or_interval (Interval 1 2) \<and> scalar_or_interval (Interval 3 5) \<and>
   blend (Unknown None) (Num 7) (1/2) = Inr (Num 7) \<and>
   blend (Interval 1 2) (Interval 3 5) 0 = Inr (Interval 1 2) \<and>
   blend (Interval 1 2) (Interval 3 5) 1 = Inr (Interval 3 5)"
  using blend_boundary_identities [of "Interval 1 2" "Interval 3 5" None "Num 7" "1/2"]
  by simp

section \<open>Weighted-mean collapse\<close>

lemma wm_loop_acc:
  "wm_loop bs (mids, widths, total_c) =
     (mids @ map (\<lambda>b. mid (promote (b_value b)) * b_confidence b) (filter takes_part bs),
      widths @ map (\<lambda>b. width (promote (b_value b)) * b_confidence b) (filter takes_part bs),
      total_c + sum_list (map b_confidence (filter takes_part bs)))"
proof (induction bs arbitrary: mids widths total_c)
  case Nil
  show ?case by simp
next
  case (Cons b bs)
  show ?case
    using Cons.IH by (cases "b_value b") (simp_all add: takes_part_def Let_def add.assoc)
qed

lemma weighted_mean_chosen_value:
  "b_value (weighted_mean_chosen bs) =
     (if wm_total bs = 0 then b_value (hd bs)
      else mk_Interval (wm_mid bs - wm_width bs / 2) (wm_mid bs + wm_width bs / 2))"
  by (simp add: weighted_mean_chosen_def wm_loop_acc wm_total_def wm_mid_def wm_width_def Let_def)

lemma map_of_dict_set_same: "map_of (dict_set k x d) k = Some x"
  by (induction d) auto

lemma map_of_dict_set_other: "k' \<noteq> k \<Longrightarrow> map_of (dict_set k x d) k' = map_of d k'"
  by (induction d) auto

lemma hw_attr_set_attr:
  assumes "hw_set_attr wb path v src m = Inr wb'" and "split_dot path = Some (ent, key)"
  shows "hw_attr wb' ent key = Some (V v)"
  using assms
  by (auto simp: hw_set_attr_def hw_attr_def hw_bump_def Let_def map_of_dict_set_same
           split: option.splits)

text \<open>
  C9, as stated, fails: a candidate whose value is a number is not excluded. With a
  number 1 and the interval from 0 to 0, both of confidence 1, the code commits the
  interval from 1/2 to 1/2; the mean over the interval-valued candidates only is the
  interval from 0 to 0.
\<close>

theorem weighted_mean_scalar_counterexample:
  "b_value (weighted_mean_chosen
      [\<lparr>b_name = ''a'', b_value = Num 1, b_metaphor = ''m'', b_confidence = 1,
        b_from = None, b_context = None\<rparr>,
       \<lparr>b_name = ''b'', b_value = Interval 0 0, b_metaphor = ''m'', b_confidence = 1,
        b_from = None, b_context = None\<rparr>]) = Interval (1/2) (1/2) \<and>
   spec_interval_only_mean
      [\<lparr>b_name = ''a'', b_value = Num 1, b_metaphor = ''m'', b_confidence = 1,
        b_from = None, b_context = None\<rparr>,
       \<lparr>b_name = ''b'', b_value = Interval 0 0, b_metaphor = ''m'', b_confidence = 1,
        b_from = None, b_context = None\<rparr>] = Interval 0 0"
  by (simp add: weighted_mean_chosen_def spec_interval_only_mean_def mk_Interval_def Let_def)

text \<open>
  C9 (amended): under the \<^verbatim>\<open>weighted_mean\<close> policy the candidates whose values are
  intervals or numbers take part, a number as its degenerate interval, and every other
  candidate is excluded. When the candidate list of the attribute is not empty and the
  total confidence of the candidates that take part is not zero, the collapse succeeds
  and the committed value is the interval built from the confidence-weighted mean of
  their midpoints and the confidence-weighted mean of their widths.
\<close>

theorem collapse_weighted_mean:
  assumes "split_dot path = Some (ent, key)"
    and "map_of (hw_nodes wb) ent = Some n"
    and "branches_of n key = Inr bs"
    and "bs \<noteq> []"
    and "wm_total bs \<noteq> 0"
  shows "\<exists>wb' chosen. collapse_branches wb path ''weighted_mean'' = Inr (wb', Some chosen) \<and>
           b_value chosen =
             mk_Interval (wm_mid bs - wm_width bs / 2) (wm_mid bs + wm_width bs / 2) \<and>
           hw_attr wb' ent key = Some (V (b_value chosen))"
proof -
  let ?c = "weighted_mean_chosen bs"
  let ?src = "''collapse:'' @ ''weighted_mean''"
  let ?m = "Some (''Collapsed from branches via '' @ ''weighted_mean'')"
  obtain wb' where set: "hw_set_attr wb path (b_value ?c) ?src ?m = Inr wb'"
    using assms(1,2) by (simp add: hw_set_attr_def Let_def)
  have "collapse_branches wb path ''weighted_mean'' = Inr (wb', Some ?c)"
    using assms(1-4) set by (simp add: collapse_branches_def)
  moreover have "b_value ?c =
      mk_Interval (wm_mid bs - wm_width bs / 2) (wm_mid bs + wm_width bs / 2)"
    using assms(5) by (simp add: weighted_mean_chosen_value)
  moreover have "hw_attr wb' ent key = Some (V (b_value ?c))"
    using hw_attr_set_attr [OF set assms(1)] .
  ultimately show ?thesis by blast
qed

theorem collapse_weighted_mean_witness:
  "\<exists>wb' chosen. collapse_branches ex_hwb ''e.trust'' ''weighted_mean'' = Inr (wb', Some chosen) \<and>
     b_value chosen = Interval (1/2) (3/2) \<and>
     hw_attr wb' ''e'' ''trust'' = Some (V (b_value chosen))"
proof -
  have 1: "split_dot ''e.trust'' = Some (''e'', ''trust'')" by simp
  have 2: "map_of (hw_nodes ex_hwb) ''e'' = Some ex_hnode" by (simp add: ex_hwb_def)
  have 3: "branches_of ex_hnode ''trust'' = Inr ex_branches"
    by (simp add: branches_of_def ex_hnode_def)
  have 4: "ex_branches \<noteq> []" by (simp add: ex_branches_def)
  have t: "wm_total ex_branches = 2"
    by (simp add: wm_total_def ex_branches_def takes_part_def)
  have 5: "wm_total ex_branches \<noteq> 0" by (simp add: t)
  have m: "wm_mid ex_branches = 1"
    by (simp add: wm_mid_def t) (simp add: ex_branches_def takes_part_def)
  have w: "wm_width ex_branches = 1"
    by (simp add: wm_width_def t) (simp add: ex_branches_def takes_part_def)
  from collapse_weighted_mean [OF 1 2 3 4 5] show ?thesis
    by (simp add: m w mk_Interval_def)
qed

section \<open>Versions and the provenance log\<close>

lemma bump_fields [simp]:
  "version (bump op a r wb) = version wb + 1"
  "provenance (bump op a r wb) = provenance wb @
     [\<lparr>pe_op = op, pe_args = a, pe_version = version wb + 1, pe_result = r\<rparr>]"
  "nodes (bump op a r wb) = nodes wb"
  "edges (bump op a r wb) = edges wb"
  "constraints (bump op a r wb) = constraints wb"
  "rules (bump op a r wb) = rules wb"
  "snapshots (bump op a r wb) = snapshots wb"
  by (simp_all add: bump_def)

lemma write_attr_fields [simp]:
  "version (write_attr k ent key v wb) = version wb"
  "provenance (write_attr k ent key v wb) = provenance wb"
  "constraints (write_attr k ent key v wb) = constraints wb"
  "rules (write_attr k ent key v wb) = rules wb"
  "snapshots (write_attr k ent key v wb) = snapshots wb"
  by (simp_all add: write_attr_def split: container.splits option.splits)





















lemma log_ok_init: "log_ok init_wb"
  by (simp add: log_ok_def init_wb_def)


















text \<open>
  C10: the read-only queries \<open>query_attr\<close>, \<open>explain\<close> and \<open>diff\<close> each append
  one provenance entry, named after the query, and increase the version by 1 on every
  call; a call of \<open>diff\<close> makes the log one entry longer.
\<close>

theorem queries_are_logged:
  "(logged_once wb (fst (query_attr wb path)) \<and>
    pe_op (last (provenance (fst (query_attr wb path)))) = ''query_attr'') \<and>
   (logged_once wb (fst (explain ev wb path)) \<and>
    pe_op (last (provenance (fst (explain ev wb path)))) = ''explain'') \<and>
   (logged_once wb (fst (diff wb v)) \<and>
    pe_op (last (provenance (fst (diff wb v)))) = ''diff'' \<and>
    length (provenance (fst (diff wb v))) = length (provenance wb) + 1)"
  by (simp add: query_attr_def explain_def diff_def Let_def logged_once_def)

section \<open>Reads and writes through a path\<close>







section \<open>Evaluation failures during propagation\<close>

lemma prop_loop_error:
  "prop_loop ev cs (wb, u, d) = (st', Some e) \<Longrightarrow>
     \<exists>old tv s. tv \<noteq> PyNone \<and> blend old tv s = Inl e"
proof (induction cs arbitrary: wb u d)
  case Nil
  then show ?case by simp
next
  case (Cons a cs)
  obtain cid c where a: "a = (cid, c)" by (cases a)
  show ?case
  proof (cases "safe_eval ev wb (c_expr c) = PyNone")
    case True
    then show ?thesis using Cons a by simp
  next
    case tv: False
    show ?thesis
    proof (cases "resolve_container wb (c_target c)")
      case (Inl x)
      then show ?thesis using Cons a tv by simp
    next
      case (Inr x)
      obtain k ent key where x: "x = (k, ent, key)" by (cases x)
      let ?cur = "attr_get (attrs_of wb k ent) key"
      show ?thesis
      proof (cases "blend ?cur (safe_eval ev wb (c_expr c)) (c_strength c)")
        case (Inl err)
        then have "e = err" using Cons.prems a tv Inr x by (simp add: Let_def)
        with Inl tv show ?thesis by blast
      next
        case (Inr nv)
        then show ?thesis using Cons.prems Cons.IH a tv \<open>resolve_container wb (c_target c) = Inr x\<close> x
          by (auto simp: Let_def split: if_splits)
      qed
    qed
  qed
qed

lemma propagate_once_error:
  "propagate_once ev wb = (wb', Inl e) \<Longrightarrow>
     \<exists>old tv s. tv \<noteq> PyNone \<and> blend old tv s = Inl e"
  by (auto simp: propagate_once_def Let_def split: prod.splits option.splits
           dest!: prop_loop_error)

lemma sim_loop_error:
  "sim_loop ev ud ms s wb = (wb', Inl e) \<Longrightarrow>
     \<exists>old tv st. tv \<noteq> PyNone \<and> blend old tv st = Inl e"
proof (induction ev ud ms s wb rule: sim_loop.induct)
  case (1 ev ud ms s wb)
  show ?case
  proof (cases "sim_continue ms s")
    case False
    then show ?thesis using "1.prems" by (simp add: sim_loop.simps)
  next
    case True
    obtain wb1 x where p: "propagate_once ev wb = (wb1, x)" by (cases "propagate_once ev wb")
    show ?thesis
    proof (cases x)
      case (Inl err)
      then have "e = err" using True p "1.prems" by (simp add: sim_loop.simps [of ev ud ms s wb])
      with p Inl propagate_once_error show ?thesis by blast
    next
      case (Inr r)
      show ?thesis
      proof (cases "sim_break ud ms (sim_advance s r) r")
        case True
        then show ?thesis using \<open>sim_continue ms s\<close> p Inr "1.prems"
          by (simp add: sim_loop.simps [of ev ud ms s wb] Let_def)
      next
        case False
        have "sim_loop ev ud ms (sim_advance s r\<lparr>ss_last_delta := Some (t_delta r)\<rparr>) wb1
                = (wb', Inl e)"
          using True p Inr False "1.prems"
          by (simp add: sim_loop.simps [of ev ud ms s wb] Let_def)
        from "1.IH" [OF True p [symmetric] _ refl False this] Inr show ?thesis by simp
      qed
    qed
  qed
qed

lemma simulate_error:
  "simulate ev wb t dt ud ms = (wb', Inl e) \<Longrightarrow>
     \<exists>old tv st. tv \<noteq> PyNone \<and> blend old tv st = Inl e"
  by (auto simp: simulate_def Let_def split: prod.splits sum.splits dest!: sim_loop_error)

text \<open>
  C6: an exception of the evaluator, whichever it is, is caught in \<open>safe_eval\<close> and
  surfaces as \<^verbatim>\<open>None\<close>; the tick skips a constraint whose expression has no result and
  goes on with the next one in the same state; and an exception that ends a tick or a
  simulation is never the evaluator's: it is one that \<open>blend\<close> raised on a result
  that the evaluator did return.
\<close>

theorem eval_failure_is_skipped:
  "(ev (val wb) expr = Inl err \<longrightarrow> safe_eval ev wb expr = PyNone) \<and>
   (safe_eval ev wb (c_expr c) = PyNone \<longrightarrow>
      prop_loop ev ((cid, c) # cs) (wb, updates, delta_total) =
      prop_loop ev cs (wb, updates, delta_total)) \<and>
   (\<forall>wb' e. propagate_once ev wb = (wb', Inl e) \<longrightarrow>
      (\<exists>old tv s. tv \<noteq> PyNone \<and> blend old tv s = Inl e)) \<and>
   (\<forall>wb' e. simulate ev wb ticks dt until_delta max_steps = (wb', Inl e) \<longrightarrow>
      (\<exists>old tv s. tv \<noteq> PyNone \<and> blend old tv s = Inl e))"
proof -
  have a: "ev (val wb) expr = Inl err \<longrightarrow> safe_eval ev wb expr = PyNone"
    by (simp add: safe_eval_def)
  have b: "safe_eval ev wb (c_expr c) = PyNone \<longrightarrow>
      prop_loop ev ((cid, c) # cs) (wb, updates, delta_total) =
      prop_loop ev cs (wb, updates, delta_total)"
    by simp
  from a b propagate_once_error simulate_error show ?thesis by blast
qed

theorem eval_failure_is_skipped_witness:
  "lit_eval (val ex_wb_c) ''1/0'' = Inl ZeroDivisionError \<and>
   safe_eval lit_eval ex_wb_c ''1/0'' = PyNone \<and>
   prop_loop lit_eval (constraints ex_wb_c) (ex_wb_c, [], 0) =
     prop_loop lit_eval (tl (constraints ex_wb_c)) (ex_wb_c, [], 0) \<and>
   (\<exists>wb' r. propagate_once lit_eval ex_wb_c = (wb', Inr r) \<and> t_count r = 1 \<and>
       val wb' ''a.x'' = Num (1/2))"
proof -
  have f: "lit_eval (val ex_wb_c) ''1/0'' = Inl ZeroDivisionError"
    by (simp add: lit_eval_def)
  have cs: "constraints ex_wb_c = (''c1'', mk_constraint ''c1'' ''a.x'' ''1/0'') #
             [(''c2'', mk_constraint ''c2'' ''a.x'' ''0.5'')]"
    by (simp add: ex_wb_c_def)
  have ex: "c_expr (mk_constraint ''c1'' ''a.x'' ''1/0'') = ''1/0''"
    by (simp add: mk_constraint_def)
  note t = eval_failure_is_skipped [of lit_eval ex_wb_c "''1/0''" ZeroDivisionError
      "mk_constraint ''c1'' ''a.x'' ''1/0''" "''c1''"
      "[(''c2'', mk_constraint ''c2'' ''a.x'' ''0.5'')]" "[]" 0]
  from t f have s: "safe_eval lit_eval ex_wb_c ''1/0'' = PyNone" by blast
  from t s ex have l: "prop_loop lit_eval (constraints ex_wb_c) (ex_wb_c, [], 0) =
     prop_loop lit_eval (tl (constraints ex_wb_c)) (ex_wb_c, [], 0)"
    unfolding cs by simp
  have p: "\<exists>wb' r. propagate_once lit_eval ex_wb_c = (wb', Inr r) \<and> t_count r = 1 \<and>
       val wb' ''a.x'' = Num (1/2)"
    by (simp add: propagate_once_def ex_wb_c_def init_wb_def mk_constraint_def safe_eval_def
          lit_eval_def resolve_container_def dict_has_def attr_get_def attrs_of_def
          blend_def write_attr_def val_def Let_def bump_def)
  from f s l p show ?thesis by blast
qed

section \<open>The stopping rule of the simulation\<close>













section \<open>Rules: deterministic ids and idempotence\<close>

lemma dict_set_absent: "k \<notin> fst ` set d \<Longrightarrow> dict_set k v d = d @ [(k, v)]"
  by (induction d) auto

lemma dict_set_keys_present: "k \<in> fst ` set d \<Longrightarrow> map fst (dict_set k v d) = map fst d"
  by (induction d) fastforce+

lemma dict_set_keys:
  "map fst (dict_set k v d) = (if k \<in> set (map fst d) then map fst d else map fst d @ [k])"
  by (simp add: dict_set_absent dict_set_keys_present)

lemma dict_set_distinct: "distinct (map fst d) \<Longrightarrow> distinct (map fst (dict_set k v d))"
  by (simp add: dict_set_keys)

lemma dict_set_present:
  "k \<in> set (map fst d) \<Longrightarrow> distinct (map fst d) \<Longrightarrow>
     dict_set k v d = map (\<lambda>(k', c). if k' = k then (k', v) else (k', c)) d"
proof (induction d)
  case Nil
  then show ?case by simp
next
  case (Cons a d)
  obtain k' c where a: "a = (k', c)" by (cases a)
  show ?case
  proof (cases "k = k'")
    case True
    with Cons.prems a have "k \<notin> set (map fst d)" by auto
    then have "map (\<lambda>(k', c). if k' = k then (k', v) else (k', c)) d = d"
      by (induction d) auto
    with True a show ?thesis by simp
  next
    case False
    with Cons a show ?thesis by auto
  qed
qed

lemma set_fields_twice [simp]: "set_fields f (set_fields g c) = set_fields f c"
  by (cases f; cases g) simp

lemma upsert_entry_keys:
  "map fst (upsert_entry u cs) =
     (if fst u \<in> set (map fst cs) then map fst cs else map fst cs @ [fst u])"
  by (cases u) (simp add: dict_set_keys)

lemma upsert_entry_distinct:
  "distinct (map fst cs) \<Longrightarrow> distinct (map fst (upsert_entry u cs))"
  by (simp add: upsert_entry_keys)

lemma map_of_present: "k \<in> set (map fst d) \<Longrightarrow> \<exists>c. map_of d k = Some c"
  by (induction d) auto

lemma upsert_entry_present:
  assumes "cid \<in> set (map fst cs)" and "distinct (map fst cs)"
  shows "upsert_entry (cid, f) cs =
           map (\<lambda>(k, c). if k = cid then (k, set_fields f c) else (k, c)) cs"
proof -
  from assms(1) obtain c0 where c0: "map_of cs cid = Some c0"
    using map_of_present by fastforce
  have "upsert_entry (cid, f) cs = dict_set cid (set_fields f c0) cs" using c0 by simp
  also have "\<dots> = map (\<lambda>(k', c). if k' = cid then (k', set_fields f c0) else (k', c)) cs"
    using assms by (simp add: dict_set_present)
  also have "\<dots> = map (\<lambda>(k, c). if k = cid then (k, set_fields f c) else (k, c)) cs"
  proof (rule map_cong [OF refl])
    fix x assume x: "x \<in> set cs"
    obtain k c where kc: "x = (k, c)" by (cases x)
    show "(case x of (k', c) \<Rightarrow> if k' = cid then (k', set_fields f c0) else (k', c)) =
          (case x of (k, c) \<Rightarrow> if k = cid then (k, set_fields f c) else (k, c))"
    proof (cases "k = cid")
      case True
      with x kc assms(2) c0 have "c = c0" by (metis map_of_is_SomeI option.inject)
      with True kc show ?thesis by simp
    next
      case False
      with kc show ?thesis by simp
    qed
  qed
  finally show ?thesis .
qed

lemma apply_upserts_snoc: "apply_upserts (us @ [u]) cs = upsert_entry u (apply_upserts us cs)"
  by (simp add: apply_upserts_def)

lemma apply_upserts_append: "apply_upserts (us @ vs) cs = apply_upserts vs (apply_upserts us cs)"
  by (simp add: apply_upserts_def)

lemma apply_upserts_distinct:
  "distinct (map fst cs) \<Longrightarrow> distinct (map fst (apply_upserts us cs))"
  by (induction us rule: rev_induct) (simp_all add: apply_upserts_def upsert_entry_distinct)

lemma apply_upserts_keys:
  "set (map fst (apply_upserts us cs)) = set (map fst cs) \<union> set (map fst us)"
  by (induction us rule: rev_induct) (auto simp: apply_upserts_snoc upsert_entry_keys apply_upserts_def)

lemma last_fields_snoc:
  "last_fields (us @ [u]) k = (if k = fst u then Some (snd u) else last_fields us k)"
  by (cases u) (simp add: last_fields_def)

text \<open>Every entry of the dictionary after the upserts already has the fields of the last
  upsert of its id.\<close>

lemma apply_upserts_final:
  assumes "distinct (map fst cs)"
  shows "\<forall>(k, c) \<in> set (apply_upserts us cs). \<forall>f. last_fields us k = Some f \<longrightarrow> set_fields f c = c"
proof (induction us rule: rev_induct)
  case Nil
  show ?case by (simp add: last_fields_def apply_upserts_def)
next
  case (snoc u us)
  let ?D = "apply_upserts us cs"
  have dist: "distinct (map fst ?D)" using assms by (rule apply_upserts_distinct)
  obtain cid g where u: "u = (cid, g)" by (cases u)
  show ?case
  proof (clarify)
    fix k c f
    assume kc: "(k, c) \<in> set (apply_upserts (us @ [u]) cs)"
      and lf: "last_fields (us @ [u]) k = Some f"
    show "set_fields f c = c"
    proof (cases "cid \<in> set (map fst ?D)")
      case True
      then have eq: "upsert_entry u ?D =
          map (\<lambda>(k, c). if k = cid then (k, set_fields g c) else (k, c)) ?D"
        using upsert_entry_present [of cid ?D g] True dist unfolding u by blast
      from kc obtain c' where c': "(k, c') \<in> set ?D"
        and c: "c = (if k = cid then set_fields g c' else c')"
        unfolding apply_upserts_snoc eq by (auto split: if_splits)
      show ?thesis
      proof (cases "k = cid")
        case True
        with lf u have "f = g" by (simp add: last_fields_snoc)
        with True c show ?thesis by simp
      next
        case False
        with lf u have "last_fields us k = Some f" by (simp add: last_fields_snoc)
        with snoc c' have "set_fields f c' = c'" by blast
        with False c show ?thesis by simp
      qed
    next
      case False
      then have none: "map_of ?D cid = None" by (simp add: map_of_eq_None_iff)
      have app: "dict_set cid v ?D = ?D @ [(cid, v)]" for v
        using False by (simp add: dict_set_absent)
      let ?new = "set_fields g \<lparr>c_id = cid, c_target = [], c_expr = [], c_strength = 0, c_note = None\<rparr>"
      have eq: "upsert_entry u ?D = ?D @ [(cid, ?new)]" using u none app by simp
      from kc have "(k, c) \<in> set ?D \<or> (k = cid \<and> c = ?new)"
        unfolding apply_upserts_snoc eq by auto
      then show ?thesis
      proof
        assume in_D: "(k, c) \<in> set ?D"
        then have "k \<noteq> cid" using False by force
        with lf u have "last_fields us k = Some f" by (simp add: last_fields_snoc)
        with snoc in_D show ?thesis by blast
      next
        assume "k = cid \<and> c = ?new"
        moreover with lf u have "f = g" by (simp add: last_fields_snoc)
        ultimately show ?thesis by simp
      qed
    qed
  qed
qed

text \<open>On a dictionary that has all the ids, the upserts rewrite fields in place.\<close>

lemma apply_upserts_in_place:
  assumes "distinct (map fst cs)" and "set (map fst us) \<subseteq> set (map fst cs)"
  shows "apply_upserts us cs =
           map (\<lambda>(k, c). (k, case last_fields us k of None \<Rightarrow> c | Some f \<Rightarrow> set_fields f c)) cs"
  using assms(2)
proof (induction us rule: rev_induct)
  case Nil
  show ?case by (simp add: apply_upserts_def last_fields_def)
next
  case (snoc u us)
  obtain cid g where u: "u = (cid, g)" by (cases u)
  let ?D = "apply_upserts us cs"
  have D: "?D = map (\<lambda>(k, c). (k, case last_fields us k of None \<Rightarrow> c | Some f \<Rightarrow> set_fields f c)) cs"
    using snoc by simp
  have keys: "map fst ?D = map fst cs" by (subst D) (simp add: comp_def case_prod_unfold)
  have "cid \<in> set (map fst ?D)" using snoc.prems u keys by simp
  moreover have "distinct (map fst ?D)" using assms(1) keys by simp
  ultimately have "upsert_entry (cid, g) ?D =
          map (\<lambda>(k, c). if k = cid then (k, set_fields g c) else (k, c)) ?D"
    by (rule upsert_entry_present)
  also have "\<dots> = map (\<lambda>(k, c). (k, case last_fields (us @ [(cid, g)]) k of None \<Rightarrow> c
                                    | Some f \<Rightarrow> set_fields f c)) cs"
    by (subst D) (auto simp: last_fields_snoc split: option.splits)
  finally show ?case unfolding u by (simp add: apply_upserts_snoc del: upsert_entry.simps)
qed

lemma apply_upserts_idem:
  assumes "distinct (map fst cs)"
  shows "apply_upserts us (apply_upserts us cs) = apply_upserts us cs"
proof -
  let ?D = "apply_upserts us cs"
  have dist: "distinct (map fst ?D)" using assms by (rule apply_upserts_distinct)
  have keys: "set (map fst us) \<subseteq> set (map fst ?D)"
    using apply_upserts_keys [of us cs] by auto
  have "apply_upserts us ?D =
          map (\<lambda>(k, c). (k, case last_fields us k of None \<Rightarrow> c | Some f \<Rightarrow> set_fields f c)) ?D"
    using dist keys by (rule apply_upserts_in_place)
  also have "\<dots> = map (\<lambda>x. x) ?D"
  proof (rule map_cong [OF refl])
    fix x assume x: "x \<in> set ?D"
    obtain k c where kc: "x = (k, c)" by (cases x)
    from apply_upserts_final [OF assms, of us] x kc
    have "\<forall>f. last_fields us k = Some f \<longrightarrow> set_fields f c = c" by blast
    then show "(case x of (k, c) \<Rightarrow> (k, case last_fields us k of None \<Rightarrow> c | Some f \<Rightarrow> set_fields f c)) = x"
      using kc by (auto split: option.splits)
  qed
  finally show ?thesis by simp
qed

end
